theory Spec2Isabelle
  imports Complex_Main
begin

section \<open>The camera screen of the application (src/application/CameraApp.tsx)\<close>

text \<open>
  The component \<open>CameraExample\<close> holds four React state variables and wires a handful of
  asynchronous handlers around an external camera component and an external inference
  library. The embedding below follows the source function by function:
  \<^item> component state is a record, each \<open>setX(v)\<close> is a record update;
  \<^item> every call a handler makes outside the component (the library, the file system,
    the frame buffer, the dialog) and every state setter it calls is logged as an
    \<open>effect\<close>, in program order;
  \<^item> an awaited promise that rejects, and a thrown \<open>TypeError\<close>, end the handler at that
    point: the handler's outcome is \<open>Inl\<close> and nothing after the \<open>await\<close> runs;
  \<^item> a JavaScript number is an IEEE double: the real it denotes, an infinity or NaN;
    a product or quotient is the exact result rounded to the nearest double, ties to the
    even mantissa, and \<open>Math.round x\<close> is \<open>\<lfloor>x + 1/2\<rfloor>\<close> (ties go up). Minus zero is not
    told apart from zero.
  The external collaborators (\<open>MobileModel.execute\<close>, \<open>ImageUtil.toFile\<close>, and the
  \<open>processImage\<close> of the hook \<open>useImageModelInference\<close>, which is given the selected model)
  and the two tables \<open>ImageClassificationModels\<close> and \<open>MobileNetV3Classes\<close>, none of which
  the component defines, are the fields of an environment record. A call either resolves
  (\<open>Inr\<close>) or rejects (\<open>Inl\<close>), and resolves the same way whenever it is repeated with the
  same arguments.
\<close>

subsection \<open>Data\<close>

datatype Image = Image nat

record ModelInfo =
  name :: string
  model :: string

datatype ModelResultMetrics = ModelResultMetrics nat

datatype number = Finite real | PosInfinity | NegInfinity | NaN

text \<open>What \<open>MobileModel.execute\<close> resolves to: \<open>{result: {maxIdx, confidence}, metrics}\<close>.\<close>

datatype ModelResult =
  ModelResult (result_maxIdx: int) (result_confidence: number) (result_metrics: ModelResultMetrics)

text \<open>An entry of \<open>classesInfo\<close>; \<open>className\<close> is \<open>None\<close> where JavaScript has \<open>undefined\<close>.\<close>

record ClassInfo =
  className :: "string option"
  confidence :: number
  metrics :: ModelResultMetrics

datatype error = TypeError | Rejected string

record env =
  ImageClassificationModels :: "ModelInfo list"
  MobileNetV3Classes :: "string list"
  execute :: "string \<Rightarrow> Image \<Rightarrow> error + ModelResult"
  toFile :: "Image \<Rightarrow> error + string"
  processImage :: "ModelInfo option \<Rightarrow> Image \<Rightarrow> error + unit"

datatype action = ReturnNull | ExitApp

record AlertButton =
  buttonText :: string
  onPress :: action
  style :: "string option"

datatype effect =
    CallToFile Image
  | CallExecute string Image
  | CallProcessImage "ModelInfo option" Image
  | Release Image
  | SetIsCaptured bool
  | SetCurrImage string
  | SetClassesInfo "ClassInfo list"
  | SetActiveModelInfo ModelInfo
  | Alert string string "AlertButton list"
  | BackHandlerExitApp

record state =
  activeModelInfo :: "ModelInfo option"
  isCaptured :: bool
  currImage :: string
  classesInfo :: "ClassInfo list"

subsection \<open>JavaScript primitives\<close>

text \<open>\<open>xs[i]\<close> on an array: the element, or \<open>undefined\<close> outside the range.\<close>

definition js_index :: "'a list \<Rightarrow> int \<Rightarrow> 'a option" where
  "js_index xs i = (if 0 \<le> i \<and> i < int (length xs) then Some (xs ! nat i) else None)"

text \<open>Rounding a real to the nearest integer, a tie going to the even one.\<close>

definition rne :: "real \<Rightarrow> int" where
  "rne y =
     (if y - of_int \<lfloor>y\<rfloor> < 1 / 2 then \<lfloor>y\<rfloor>
      else if 1 / 2 < y - of_int \<lfloor>y\<rfloor> then \<lfloor>y\<rfloor> + 1
      else if even \<lfloor>y\<rfloor> then \<lfloor>y\<rfloor> else \<lfloor>y\<rfloor> + 1)"

text \<open>
  The binary exponent of the last mantissa bit of the double format at \<open>x\<close>: 52 below the
  exponent of \<open>x\<close>, which does not go below \<open>-1022\<close> (the subnormal range).
\<close>

definition ulp_exp :: "real \<Rightarrow> int" where
  "ulp_exp x = max \<lfloor>log 2 \<bar>x\<bar>\<rfloor> (- 1022) - 52"

text \<open>
  The double that an exact result \<open>x\<close> is rounded to: the nearest multiple of the last
  mantissa bit, or an infinity when that is \<open>2^1024\<close> or more in size.
\<close>

definition to_double :: "real \<Rightarrow> number" where
  "to_double x =
     (if x = 0 then Finite 0
      else if (2::real) ^ 1024 \<le> \<bar>of_int (rne (x / 2 powi ulp_exp x)) * 2 powi ulp_exp x\<bar>
      then (if 0 < x then PosInfinity else NegInfinity)
      else Finite (of_int (rne (x / 2 powi ulp_exp x)) * 2 powi ulp_exp x))"

text \<open>
  \<open>x * k\<close> and \<open>x / k\<close> for a literal \<open>k\<close> that is a positive double (the source has
  \<open>* 1000\<close> and \<open>/ 10\<close>), and \<open>Math.round(x)\<close>.
\<close>

fun js_times :: "number \<Rightarrow> real \<Rightarrow> number" where
  "js_times (Finite a) k = to_double (a * k)"
| "js_times PosInfinity k = PosInfinity"
| "js_times NegInfinity k = NegInfinity"
| "js_times NaN k = NaN"

fun js_over :: "number \<Rightarrow> real \<Rightarrow> number" where
  "js_over (Finite a) k = to_double (a / k)"
| "js_over PosInfinity k = PosInfinity"
| "js_over NegInfinity k = NegInfinity"
| "js_over NaN k = NaN"

fun math_round :: "number \<Rightarrow> number" where
  "math_round (Finite x) = Finite (of_int \<lfloor>x + 1 / 2\<rfloor>)"
| "math_round PosInfinity = PosInfinity"
| "math_round NegInfinity = NegInfinity"
| "math_round NaN = NaN"

subsection \<open>The component\<close>

text \<open>The initial values of the four \<open>useState\<close> calls.\<close>

definition init :: "env \<Rightarrow> state" where
  "init e = \<lparr> activeModelInfo = js_index (ImageClassificationModels e) 0,
              isCaptured = False, currImage = [], classesInfo = [] \<rparr>"

text \<open>
  \<open>handleFrame\<close> is made by \<open>useCallback\<close> in every render whose \<open>isCaptured\<close> or
  \<open>processImage\<close> differs from the render before; the \<open>isCaptured\<close> it tests and the
  \<open>processImage\<close> it calls are those of that render. The state argument is the state of the
  render that made the callback, not the state at the time a frame is handed in. When that
  \<open>isCaptured\<close> holds the frame is released at once; otherwise it goes to \<open>processImage\<close> and
  is released after the \<open>await\<close>.
\<close>

definition handleFrame :: "env \<Rightarrow> state \<Rightarrow> Image \<Rightarrow> state \<times> effect list \<times> (error + unit)" where
  "handleFrame e s img =
     (if isCaptured s then (s, [Release img], Inr ())
      else (case processImage e (activeModelInfo s) img of
              Inl err \<Rightarrow> (s, [CallProcessImage (activeModelInfo s) img], Inl err)
            | Inr u \<Rightarrow> (s, [CallProcessImage (activeModelInfo s) img, Release img], Inr ())))"

text \<open>
  \<open>classifier\<close>: the loop \<open>for (let i = 0; i < 3; i++)\<close>, with the list \<open>classes\<close> built so
  far. \<open>ImageClassificationModels[i].model\<close> throws when the table has no entry \<open>i\<close>.
\<close>

function classifier_loop ::
  "env \<Rightarrow> Image \<Rightarrow> nat \<Rightarrow> ClassInfo list \<Rightarrow> effect list \<times> (error + ClassInfo list)" where
  "classifier_loop e img i classes =
     (if i < 3 then
        (case js_index (ImageClassificationModels e) (int i) of
           None \<Rightarrow> ([], Inl TypeError)
         | Some mi \<Rightarrow>
            (case execute e (model mi) img of
               Inl err \<Rightarrow> ([CallExecute (model mi) img], Inl err)
             | Inr r \<Rightarrow>
                 (case classifier_loop e img (i + 1)
                         (classes @ [\<lparr> className = js_index (MobileNetV3Classes e) (result_maxIdx r),
                                       confidence = js_over (math_round (js_times (result_confidence r) 1000)) 10,
                                       metrics = result_metrics r \<rparr>]) of
                    (tr, out) \<Rightarrow> (CallExecute (model mi) img # tr, out))))
      else ([], Inr classes))"
  by pat_completeness auto
termination
  by (relation "measure (\<lambda>(e, img, i, classes). 3 - i)") auto

declare classifier_loop.simps [simp del]

definition classifier :: "env \<Rightarrow> Image \<Rightarrow> effect list \<times> (error + ClassInfo list)" where
  "classifier e img = classifier_loop e img 0 []"

text \<open>
  \<open>handleCapture\<close>: write the photo to a file, switch to the captured screen and store the
  path, classify, store the list, release.
\<close>

definition handleCapture :: "env \<Rightarrow> state \<Rightarrow> Image \<Rightarrow> state \<times> effect list \<times> (error + unit)" where
  "handleCapture e s img =
     (case toFile e img of
        Inl err \<Rightarrow> (s, [CallToFile img], Inl err)
      | Inr p \<Rightarrow>
         (case classifier e img of
            (tr, Inl err) \<Rightarrow>
               (s\<lparr>isCaptured := True\<rparr>\<lparr>currImage := ''file://'' @ p\<rparr>,
                [CallToFile img, SetIsCaptured True, SetCurrImage (''file://'' @ p)] @ tr,
                Inl err)
          | (tr, Inr classes) \<Rightarrow>
               (s\<lparr>isCaptured := True\<rparr>\<lparr>currImage := ''file://'' @ p\<rparr>\<lparr>classesInfo := classes\<rparr>,
                [CallToFile img, SetIsCaptured True, SetCurrImage (''file://'' @ p)] @ tr
                  @ [SetClassesInfo classes, Release img],
                Inr ())))"

definition handlePressReturn :: "state \<Rightarrow> state \<times> effect list" where
  "handlePressReturn s =
     (s\<lparr>classesInfo := []\<rparr>\<lparr>currImage := []\<rparr>\<lparr>isCaptured := False\<rparr>,
      [SetClassesInfo [], SetCurrImage [], SetIsCaptured False])"

definition handleSubmit :: "state \<Rightarrow> state \<times> effect list" where
  "handleSubmit s = (s, [])"

definition setActiveModelInfo :: "ModelInfo \<Rightarrow> state \<Rightarrow> state \<times> effect list" where
  "setActiveModelInfo m s = (s\<lparr>activeModelInfo := Some m\<rparr>, [SetActiveModelInfo m])"

text \<open>
  \<open>backAction\<close>, the listener of \<open>hardwareBackPress\<close>: the third component is the boolean
  it returns.
\<close>

definition quitButtons :: "AlertButton list" where
  "quitButtons =
     [\<lparr> buttonText = ''Cancel'', onPress = ReturnNull, style = Some ''cancel'' \<rparr>,
      \<lparr> buttonText = ''YES'', onPress = ExitApp, style = None \<rparr>]"

definition backAction :: "state \<Rightarrow> state \<times> effect list \<times> bool" where
  "backAction s =
     (if isCaptured s then (fst (handlePressReturn s), snd (handlePressReturn s), True)
      else (s, [Alert ''Hold on!'' ''Are you sure you want to quit?'' quitButtons], True))"

text \<open>
  The JSX returned by the component decides which handlers the user can reach: the
  captured branch shows the Return and Submit buttons, the picture when \<open>currImage\<close> is
  not empty and the activity indicator while \<open>classesInfo[0]\<close> is missing; the other branch
  shows the camera, the model selector and the info icon.
\<close>

datatype view =
    CapturedView (showsImage: bool) (showsIndicator: bool) (rows: "(string option \<times> number) list")
  | LiveView

definition render :: "state \<Rightarrow> view" where
  "render s =
     (if isCaptured s
      then CapturedView (currImage s \<noteq> []) (classesInfo s = [])
             (map (\<lambda>c. (className c, confidence c)) (classesInfo s))
      else LiveView)"

subsection \<open>The handlers as a machine\<close>

text \<open>
  \<open>handleCapture\<close> is an \<open>async\<close> function with two awaits of its own. Between the call
  and each resumption the user interface keeps serving events, so the machine runs it in
  two segments: from the call to the \<open>await\<close> on \<open>classifier\<close>, and from there to the end.
  Run back to back, the segments are \<open>handleCapture\<close> (lemma \<open>handleCapture_segments\<close>).
\<close>

definition handleCapture_toFile ::
  "env \<Rightarrow> state \<Rightarrow> Image \<Rightarrow> state \<times> effect list \<times> (error + unit)" where
  "handleCapture_toFile e s img =
     (case toFile e img of
        Inl err \<Rightarrow> (s, [CallToFile img], Inl err)
      | Inr p \<Rightarrow>
          (s\<lparr>isCaptured := True\<rparr>\<lparr>currImage := ''file://'' @ p\<rparr>,
           [CallToFile img, SetIsCaptured True, SetCurrImage (''file://'' @ p)],
           Inr ()))"

definition handleCapture_classifier ::
  "env \<Rightarrow> state \<Rightarrow> Image \<Rightarrow> state \<times> effect list \<times> (error + unit)" where
  "handleCapture_classifier e s img =
     (case classifier e img of
        (tr, Inl err) \<Rightarrow> (s, tr, Inl err)
      | (tr, Inr classes) \<Rightarrow>
          (s\<lparr>classesInfo := classes\<rparr>, tr @ [SetClassesInfo classes, Release img], Inr ()))"

text \<open>A capture handler that has been called and is waiting at one of its two awaits.\<close>

datatype task = AwaitToFile Image | AwaitClassifier Image

text \<open>
  What can happen to the component: the camera hands in a frame or a photo, the user
  presses a button, picks a model or answers the dialog, or the \<open>i\<close>-th pending capture
  handler is resumed.
\<close>

datatype event =
    Frame Image
  | Capture Image
  | PressReturn
  | HardwareBack
  | SelectModel ModelInfo
  | Submit
  | PressInfoIcon
  | PressAlertButton nat
  | Resume nat

text \<open>
  The component's state together with what lives outside it: the capture handlers in
  flight, the buttons of the open dialog, and whether the process has ended.
\<close>

record app =
  ui :: state
  pending :: "task list"
  dialog :: "AlertButton list option"
  exited :: bool

definition init_app :: "env \<Rightarrow> app" where
  "init_app e = \<lparr> ui = init e, pending = [], dialog = None, exited = False \<rparr>"

text \<open>
  Which events can be delivered. The camera (\<open>onFrame\<close>, \<open>onCapture\<close>), the model selector
  and the info icon are rendered on the live screen only, the Return and Submit buttons on
  the captured screen only. A dialog button needs an open dialog, a resumption a pending
  handler. Each step is followed by its render, so the camera of the live screen holds the
  \<open>handleFrame\<close> made from the current state.
\<close>

fun wired :: "app \<Rightarrow> event \<Rightarrow> bool" where
  "wired a (Frame img) = (\<not> isCaptured (ui a))"
| "wired a (Capture img) = (\<not> isCaptured (ui a))"
| "wired a PressReturn = isCaptured (ui a)"
| "wired a HardwareBack = True"
| "wired a (SelectModel m) = (\<not> isCaptured (ui a))"
| "wired a Submit = isCaptured (ui a)"
| "wired a PressInfoIcon = (\<not> isCaptured (ui a))"
| "wired a (PressAlertButton i) = (case dialog a of None \<Rightarrow> False | Some bs \<Rightarrow> i < length bs)"
| "wired a (Resume i) = (i < length (pending a))"

text \<open>What the platform does with an effect: a dialog opens, the process ends.\<close>

fun perform :: "app \<Rightarrow> effect \<Rightarrow> app" where
  "perform a (Alert title msg bs) = a\<lparr>dialog := Some bs\<rparr>"
| "perform a BackHandlerExitApp = a\<lparr>exited := True\<rparr>"
| "perform a x = a"

fun press :: "action \<Rightarrow> effect list" where
  "press ReturnNull = []"
| "press ExitApp = [BackHandlerExitApp]"

text \<open>
  Resuming the \<open>i\<close>-th pending handler runs its next segment on the current state; the
  handler then waits at its next await, or is gone (it ended or its await rejected).
\<close>

definition remove_nth :: "nat \<Rightarrow> 'a list \<Rightarrow> 'a list" where
  "remove_nth i xs = take i xs @ drop (Suc i) xs"

definition resume :: "env \<Rightarrow> app \<Rightarrow> nat \<Rightarrow> app" where
  "resume e a i =
     (case pending a ! i of
        AwaitToFile img \<Rightarrow>
          (case handleCapture_toFile e (ui a) img of
             (s, tr, Inl err) \<Rightarrow> a\<lparr>ui := s, pending := remove_nth i (pending a)\<rparr>
           | (s, tr, Inr u) \<Rightarrow> a\<lparr>ui := s, pending := (pending a)[i := AwaitClassifier img]\<rparr>)
      | AwaitClassifier img \<Rightarrow>
          a\<lparr>ui := fst (handleCapture_classifier e (ui a) img),
            pending := remove_nth i (pending a)\<rparr>)"

definition step :: "env \<Rightarrow> app \<Rightarrow> event \<Rightarrow> app" where
  "step e a ev =
     (if exited a \<or> \<not> wired a ev then a
      else (case ev of
          Frame img \<Rightarrow> a\<lparr>ui := fst (handleFrame e (ui a) img)\<rparr>
        | Capture img \<Rightarrow> a\<lparr>pending := pending a @ [AwaitToFile img]\<rparr>
        | PressReturn \<Rightarrow> a\<lparr>ui := fst (handlePressReturn (ui a))\<rparr>
        | HardwareBack \<Rightarrow>
            foldl perform (a\<lparr>ui := fst (backAction (ui a))\<rparr>) (fst (snd (backAction (ui a))))
        | SelectModel m \<Rightarrow> a\<lparr>ui := fst (setActiveModelInfo m (ui a))\<rparr>
        | Submit \<Rightarrow> a\<lparr>ui := fst (handleSubmit (ui a))\<rparr>
        | PressInfoIcon \<Rightarrow> a
        | PressAlertButton i \<Rightarrow>
            (case dialog a of
               None \<Rightarrow> a
             | Some bs \<Rightarrow> foldl perform (a\<lparr>dialog := None\<rparr>) (press (onPress (bs ! i))))
        | Resume i \<Rightarrow> resume e a i))"

definition run :: "env \<Rightarrow> app \<Rightarrow> event list \<Rightarrow> app" where
  "run e a evs = foldl (step e) a evs"

text \<open>
  The \<open>onFrame\<close> of the camera is the \<open>handleFrame\<close> of the render that drew the camera, and
  only a render of the live screen draws one. Along a run from a state whose last live
  render had the state \<open>r\<close>, this is the state of the last live render: the callback the
  camera held last was made from it. A frame that the camera hands to that callback after
  the run is a \<open>late_frame\<close>.
\<close>

fun last_live_render :: "env \<Rightarrow> state \<Rightarrow> app \<Rightarrow> event list \<Rightarrow> state" where
  "last_live_render e r a [] = r"
| "last_live_render e r a (ev # evs) =
     last_live_render e (if isCaptured (ui (step e a ev)) then r else ui (step e a ev))
       (step e a ev) evs"

definition late_frame ::
  "env \<Rightarrow> event list \<Rightarrow> Image \<Rightarrow> state \<times> effect list \<times> (error + unit)" where
  "late_frame e evs img = handleFrame e (last_live_render e (init e) (init_app e) evs) img"

subsection \<open>Notions used by the statements\<close>

definition effects :: "'s \<times> effect list \<times> 'r \<Rightarrow> effect list" where
  "effects h = fst (snd h)"

definition outcome :: "'s \<times> effect list \<times> 'r \<Rightarrow> 'r" where
  "outcome h = snd (snd h)"

definition isOK :: "error + 'a \<Rightarrow> bool" where
  "isOK r = (case r of Inl err \<Rightarrow> False | Inr v \<Rightarrow> True)"

text \<open>The entry that one iteration of the classifier's loop pushes.\<close>

definition classInfo_of :: "env \<Rightarrow> ModelResult \<Rightarrow> ClassInfo" where
  "classInfo_of e r =
     \<lparr> className = js_index (MobileNetV3Classes e) (result_maxIdx r),
       confidence = js_over (math_round (js_times (result_confidence r) 1000)) 10,
       metrics = result_metrics r \<rparr>"

text \<open>The number of tenths nearest to \<open>v\<close>.\<close>

definition tenths :: "real \<Rightarrow> int" where
  "tenths v = \<lfloor>v * 10 + 1 / 2\<rfloor>"

text \<open>
  A number with one decimal place, as far as a double has one: the double nearest to
  \<open>k / 10\<close> for an integer \<open>k\<close>.
\<close>

definition one_decimal :: "real \<Rightarrow> bool" where
  "one_decimal v = (to_double (of_int (tenths v) / 10) = Finite v)"

text \<open>
  An entry built from a model's result \<open>r\<close>: the label looked up at the returned index, the
  metrics passed on, and as confidence a number with one decimal place, between 0 and 100,
  whose decimal value is within \<open>1/20 + slack\<close> of the raw confidence as a percentage. With
  no slack the confidence is the raw percentage rounded to one decimal place.
\<close>

definition entry_within :: "real \<Rightarrow> env \<Rightarrow> ModelResult \<Rightarrow> ClassInfo \<Rightarrow> bool" where
  "entry_within slack e r c =
     (className c = js_index (MobileNetV3Classes e) (result_maxIdx r)
      \<and> metrics c = result_metrics r
      \<and> (case (result_confidence r, confidence c) of
            (Finite raw, Finite v) \<Rightarrow>
               one_decimal v \<and> 0 \<le> v \<and> v \<le> 100
               \<and> \<bar>of_int (tenths v) / 10 - raw * 100\<bar> \<le> 1 / 20 + slack
          | (raw, v) \<Rightarrow> False))"

text \<open>Replaying the state setters of a trace on a state.\<close>

fun setter :: "state \<Rightarrow> effect \<Rightarrow> state" where
  "setter s (SetIsCaptured b) = s\<lparr>isCaptured := b\<rparr>"
| "setter s (SetCurrImage p) = s\<lparr>currImage := p\<rparr>"
| "setter s (SetClassesInfo cs) = s\<lparr>classesInfo := cs\<rparr>"
| "setter s (SetActiveModelInfo m) = s\<lparr>activeModelInfo := Some m\<rparr>"
| "setter s x = s"

fun isSetClassesInfo :: "effect \<Rightarrow> bool" where
  "isSetClassesInfo (SetClassesInfo cs) = True"
| "isSetClassesInfo x = False"

fun isSetIsCaptured :: "effect \<Rightarrow> bool" where
  "isSetIsCaptured (SetIsCaptured b) = True"
| "isSetIsCaptured x = False"

text \<open>Some effect with \<open>P\<close> comes earlier in the trace than some effect with \<open>Q\<close>.\<close>

fun occurs_before :: "(effect \<Rightarrow> bool) \<Rightarrow> (effect \<Rightarrow> bool) \<Rightarrow> effect list \<Rightarrow> bool" where
  "occurs_before P Q [] = False"
| "occurs_before P Q (x # xs) = ((P x \<and> list_ex Q xs) \<or> occurs_before P Q xs)"

fun isCallProcessImage :: "effect \<Rightarrow> bool" where
  "isCallProcessImage (CallProcessImage m img) = True"
| "isCallProcessImage x = False"

text \<open>The live screen holds no result and no picture.\<close>

definition live_is_clean :: "state \<Rightarrow> bool" where
  "live_is_clean s = (isCaptured s \<or> (classesInfo s = [] \<and> currImage s = []))"

subsection \<open>Sample environments\<close>

definition sample_models :: "ModelInfo list" where
  "sample_models =
     [\<lparr> name = ''A'', model = ''a.ptl'' \<rparr>,
      \<lparr> name = ''B'', model = ''b.ptl'' \<rparr>,
      \<lparr> name = ''C'', model = ''c.ptl'' \<rparr>]"

text \<open>The double nearest to 0.0045 (lemma \<open>to_double_0_0045\<close>).\<close>

definition double_0_0045 :: real where
  "double_0_0045 = 5188146770730811 / 2 ^ 60"

definition sample_execute :: "string \<Rightarrow> Image \<Rightarrow> error + ModelResult" where
  "sample_execute m img =
     (if m = ''a.ptl'' then Inr (ModelResult 1 (Finite (7 / 8)) (ModelResultMetrics 12))
      else if m = ''b.ptl'' then Inr (ModelResult 0 (Finite (1 / 2)) (ModelResultMetrics 30))
      else if m = ''c.ptl'' then Inr (ModelResult 7 (Finite double_0_0045) (ModelResultMetrics 45))
      else Inl (Rejected ''no such model''))"

definition sample_env :: env where
  "sample_env =
     \<lparr> ImageClassificationModels = sample_models,
       MobileNetV3Classes = [''tench'', ''goldfish'', ''shark''],
       execute = sample_execute,
       toFile = (\<lambda>img. Inr ''/tmp/photo.png''),
       processImage = (\<lambda>m img. Inr ()) \<rparr>"

text \<open>What the classifier makes of the sample environment (lemma \<open>sample_classifier\<close>).\<close>

definition sample_result :: "ClassInfo list" where
  "sample_result =
     [\<lparr> className = Some ''goldfish'', confidence = Finite (175 / 2),
        metrics = ModelResultMetrics 12 \<rparr>,
      \<lparr> className = Some ''tench'', confidence = Finite 50, metrics = ModelResultMetrics 30 \<rparr>,
      \<lparr> className = None, confidence = Finite (1 / 2), metrics = ModelResultMetrics 45 \<rparr>]"

definition failing_env :: env where
  "failing_env = sample_env\<lparr>processImage := (\<lambda>m img. Inl (Rejected ''inference failed''))\<rparr>"

definition captured_state :: state where
  "captured_state = (init sample_env)\<lparr>isCaptured := True\<rparr>"

text \<open>
  A run in the sample environment: a capture is started, its file write resolves, Return
  is pressed while the classifier is still awaited, and then the classifier resolves.
\<close>

definition awaiting_file :: app where
  "awaiting_file = (init_app sample_env)\<lparr>pending := [AwaitToFile (Image 0)]\<rparr>"

definition classifying :: app where
  "classifying =
     (init_app sample_env)
       \<lparr>ui := (init sample_env)\<lparr>isCaptured := True, currImage := ''file:///tmp/photo.png''\<rparr>,
        pending := [AwaitClassifier (Image 0)]\<rparr>"

definition returned_early :: app where
  "returned_early = (init_app sample_env)\<lparr>pending := [AwaitClassifier (Image 0)]\<rparr>"

definition late_result :: app where
  "late_result = (init_app sample_env)\<lparr>ui := (init sample_env)\<lparr>classesInfo := sample_result\<rparr>\<rparr>"

text \<open>The captured screen showing one result.\<close>

definition shown_result :: app where
  "shown_result =
     \<lparr> ui = \<lparr> activeModelInfo = Some \<lparr> name = ''A'', model = ''a.ptl'' \<rparr>, isCaptured = True,
                currImage = ''file:///tmp/photo.png'',
                classesInfo = [\<lparr> className = Some ''tench'', confidence = Finite 50,
                                  metrics = ModelResultMetrics 30 \<rparr>] \<rparr>,
       pending = [], dialog = None, exited = False \<rparr>"

section \<open>Properties\<close>

subsection \<open>Rounding to a double\<close>

lemma rne_near: "\<bar>of_int (rne y) - y\<bar> \<le> 1 / 2"
  unfolding rne_def by (auto split: if_splits)

lemma ulp_exp_binade:
  assumes "2 powi e \<le> \<bar>x\<bar>" and "\<bar>x\<bar> < 2 powi (e + 1)"
  shows "ulp_exp x = max e (- 1022) - 52"
proof -
  have "(0::real) < 2 powi e" by (simp add: zero_less_power_int)
  with assms(1) have pos: "0 < \<bar>x\<bar>" by linarith
  have "(2::real) powr real_of_int e = 2 powi e"
    "(2::real) powr real_of_int (e + 1) = 2 powi (e + 1)"
    by (rule powr_real_of_int'; simp)+
  with assms have "2 powr real_of_int e \<le> \<bar>x\<bar>" "\<bar>x\<bar> < 2 powr real_of_int (e + 1)"
    by (simp_all only:)
  with pos have "\<lfloor>log 2 \<bar>x\<bar>\<rfloor> = e"
    by (subst floor_log_eq_powr_iff) simp_all
  then show ?thesis by (simp add: ulp_exp_def)
qed

lemma ulp_exp_small:
  assumes "0 < \<bar>x\<bar>" and "\<bar>x\<bar> < 1024"
  shows "ulp_exp x \<le> - 43"
proof -
  have "log 2 \<bar>x\<bar> < 10"
    using assms by (simp add: log_less_iff)
  then have "\<lfloor>log 2 \<bar>x\<bar>\<rfloor> \<le> 9" by linarith
  then show ?thesis by (simp add: ulp_exp_def)
qed

text \<open>Below 1024 a result is rounded to a finite double no further than \<open>2^-44\<close> away.\<close>

lemma to_double_near:
  assumes "0 \<le> x" and "x < 1024"
  shows "\<exists>y. to_double x = Finite y \<and> \<bar>y - x\<bar> \<le> 1 / 2 ^ 44"
proof (cases "x = 0")
  case True
  then show ?thesis by (simp add: to_double_def)
next
  case False
  define u :: real where "u = 2 powi ulp_exp x"
  define y where "y = of_int (rne (x / u)) * u"
  have upos: "0 < u" by (simp add: u_def)
  have "ulp_exp x \<le> - 43" using assms False by (intro ulp_exp_small) simp_all
  then have "u \<le> 2 powi (- 43)"
    unfolding u_def by (intro power_int_increasing) simp_all
  then have ule: "u \<le> 1 / 2 ^ 43" by (simp add: power_int_minus field_simps)
  have "y - x = (of_int (rne (x / u)) - x / u) * u"
    using upos by (simp add: y_def field_simps)
  then have "\<bar>y - x\<bar> = \<bar>of_int (rne (x / u)) - x / u\<bar> * u"
    using upos by (simp add: abs_mult)
  also have "\<dots> \<le> 1 / 2 * u"
    using rne_near [of "x / u"] upos by (intro mult_right_mono) simp_all
  also have "\<dots> \<le> 1 / 2 ^ 44" using ule by simp
  finally have near: "\<bar>y - x\<bar> \<le> 1 / 2 ^ 44" .
  have "(1::real) / 2 ^ 44 \<le> 1" by simp
  with near have "\<bar>y\<bar> \<le> 1025" using assms by linarith
  moreover have "(1025::real) < 2 ^ 1024"
  proof -
    have "(1025::real) < 2 ^ 11" by simp
    also have "\<dots> \<le> 2 ^ 1024" by (intro power_increasing) simp_all
    finally show ?thesis .
  qed
  ultimately have "\<not> 2 ^ 1024 \<le> \<bar>y\<bar>" by linarith
  then have "to_double x = Finite y"
    using False by (simp add: to_double_def y_def u_def)
  with near show ?thesis by blast
qed

text \<open>The rounding of a positive result below 1024 whose exponent is known.\<close>

lemma to_double_eval:
  assumes "2 powi e \<le> x" and "x < 2 powi (e + 1)" and "- 1022 \<le> e" and "e \<le> 9"
  shows "to_double x = Finite (of_int (rne (x / 2 powi (e - 52))) * 2 powi (e - 52))"
proof -
  have "(0::real) < 2 powi e" by (simp add: zero_less_power_int)
  with assms(1) have pos: "0 < x" by linarith
  then have ax: "\<bar>x\<bar> = x" by simp
  have k: "ulp_exp x = e - 52" using ulp_exp_binade [of e x] assms(1-3) ax by simp
  have "x < 2 powi 10"
    using assms(2,4) power_int_increasing [of "e + 1" 10 "2::real"] by simp
  then have small: "x < 1024" by simp
  with pos to_double_near [of x] obtain y where "to_double x = Finite y" by auto
  then show ?thesis using pos k by (auto simp: to_double_def split: if_splits)
qed

lemma to_double_100: "to_double 100 = Finite 100"
  using to_double_eval [of 6 100] by (simp add: rne_def power_int_minus)

lemma to_double_0_0045: "to_double (45 / 10000) = Finite double_0_0045"
  using to_double_eval [of "- 8" "45 / 10000"]
  by (simp add: rne_def power_int_minus double_0_0045_def)

text \<open>
  \<open>Math.round(c * 1000) / 10\<close> in doubles, for \<open>c\<close> between 0 and 1: the product is off by
  \<open>2^-44\<close> at most, so the rounded integer \<open>k\<close> is between 0 and 1000 and within
  \<open>1/2 + 2^-44\<close> of \<open>1000 c\<close>; the quotient is the double nearest to \<open>k / 10\<close>.
\<close>

lemma percentage_in_doubles:
  assumes "0 \<le> c" and "c \<le> 1"
  shows "\<exists>v. js_over (math_round (js_times (Finite c) 1000)) 10 = Finite v
    \<and> one_decimal v \<and> 0 \<le> v \<and> v \<le> 100
    \<and> \<bar>of_int (tenths v) / 10 - c * 100\<bar> \<le> 1 / 20 + 1 / 2 ^ 47"
proof -
  have small: "(1::real) / 2 ^ 44 \<le> 1 / 100" by simp
  from assms have "0 \<le> c * 1000" "c * 1000 < 1024" by simp_all
  from to_double_near [OF this] obtain p where
    p: "to_double (c * 1000) = Finite p" and pn: "\<bar>p - c * 1000\<bar> \<le> 1 / 2 ^ 44"
    by blast
  define k where "k = \<lfloor>p + 1 / 2\<rfloor>"
  have kp: "of_int k \<le> p + 1 / 2" "p + 1 / 2 < of_int k + 1"
    unfolding k_def by linarith+
  have "0 \<le> p + 1 / 2" "p + 1 / 2 < 1001" using pn small assms by linarith+
  then have "0 \<le> k" "k < 1001" unfolding k_def by (simp_all add: floor_less_iff)
  then have k0: "0 \<le> k" and k1: "k \<le> 1000" by simp_all
  then have "0 \<le> real_of_int k / 10" "real_of_int k / 10 < 1024" by simp_all
  from to_double_near [OF this] obtain v where
    v: "to_double (of_int k / 10) = Finite v" and vn: "\<bar>v - of_int k / 10\<bar> \<le> 1 / 2 ^ 44"
    by blast
  have val: "js_over (math_round (js_times (Finite c) 1000)) 10 = Finite v"
    by (simp add: p k_def [symmetric] v)
  have "of_int k \<le> v * 10 + 1 / 2" "v * 10 + 1 / 2 < of_int k + 1"
    using vn small by linarith+
  then have t: "tenths v = k" unfolding tenths_def by (simp add: floor_unique)
  then have od: "one_decimal v" by (simp add: one_decimal_def v)
  have lo: "0 \<le> v"
  proof (cases "k = 0")
    case True
    with v show ?thesis by (simp add: to_double_def)
  next
    case False
    with k0 have "1 \<le> real_of_int k" by linarith
    with vn small show ?thesis by linarith
  qed
  have hi: "v \<le> 100"
  proof (cases "k = 1000")
    case True
    with v show ?thesis by (simp add: to_double_100)
  next
    case False
    with k1 have "real_of_int k \<le> 999" by linarith
    with vn small show ?thesis by linarith
  qed
  define d :: real where "d = 1 / 2 ^ 44"
  define d' :: real where "d' = 1 / 2 ^ 47"
  have "d / 10 \<le> d'" by (simp add: d_def d'_def)
  moreover have "\<bar>p - c * 1000\<bar> \<le> d" using pn by (simp add: d_def)
  ultimately have "\<bar>of_int k / 10 - c * 100\<bar> \<le> 1 / 20 + d'" using kp by linarith
  then have "\<bar>of_int k / 10 - c * 100\<bar> \<le> 1 / 20 + 1 / 2 ^ 47" by (simp only: d'_def)
  with val od lo hi t show ?thesis by auto
qed

lemma entry_within_classInfo_of:
  assumes "result_confidence r = Finite c" and "0 \<le> c" and "c \<le> 1"
  shows "entry_within (1 / 2 ^ 47) e r (classInfo_of e r)"
  using percentage_in_doubles [OF assms(2,3)] assms(1)
  by (auto simp: entry_within_def classInfo_of_def)

text \<open>The sample confidences 0.875, 0.5 and the double of 0.0045, which goes to 0.5.\<close>

lemma sample_confidences:
  "js_over (math_round (js_times (Finite (7 / 8)) 1000)) 10 = Finite (175 / 2)"
  "js_over (math_round (js_times (Finite (1 / 2)) 1000)) 10 = Finite 50"
  "js_over (math_round (js_times (Finite double_0_0045) 1000)) 10 = Finite (1 / 2)"
proof -
  have a: "to_double (7 / 8 * 1000) = Finite 875" "to_double (875 / 10) = Finite (175 / 2)"
    using to_double_eval [of 9 "7 / 8 * 1000"] to_double_eval [of 6 "875 / 10"]
    by (simp_all add: rne_def power_int_minus)
  have b: "to_double (1 / 2 * 1000) = Finite 500" "to_double (500 / 10) = Finite 50"
    using to_double_eval [of 8 "1 / 2 * 1000"] to_double_eval [of 5 "500 / 10"]
    by (simp_all add: rne_def power_int_minus)
  have c: "to_double (double_0_0045 * 1000) = Finite (9 / 2)" "to_double (5 / 10) = Finite (1 / 2)"
    using to_double_eval [of 2 "double_0_0045 * 1000"] to_double_eval [of "- 1" "5 / 10"]
    by (simp_all add: rne_def power_int_minus double_0_0045_def)
  show "js_over (math_round (js_times (Finite (7 / 8)) 1000)) 10 = Finite (175 / 2)"
    using a by simp
  show "js_over (math_round (js_times (Finite (1 / 2)) 1000)) 10 = Finite 50"
    using b by simp
  show "js_over (math_round (js_times (Finite double_0_0045) 1000)) 10 = Finite (1 / 2)"
    using c by simp
qed

subsection \<open>The classifier's loop, unrolled\<close>

lemma classifier_unroll:
  "classifier e img =
     (case js_index (ImageClassificationModels e) 0 of
        None \<Rightarrow> ([], Inl TypeError)
      | Some m0 \<Rightarrow>
         (case execute e (model m0) img of
            Inl err \<Rightarrow> ([CallExecute (model m0) img], Inl err)
          | Inr r0 \<Rightarrow>
             (case js_index (ImageClassificationModels e) 1 of
                None \<Rightarrow> ([CallExecute (model m0) img], Inl TypeError)
              | Some m1 \<Rightarrow>
                 (case execute e (model m1) img of
                    Inl err \<Rightarrow> ([CallExecute (model m0) img, CallExecute (model m1) img], Inl err)
                  | Inr r1 \<Rightarrow>
                     (case js_index (ImageClassificationModels e) 2 of
                        None \<Rightarrow> ([CallExecute (model m0) img, CallExecute (model m1) img], Inl TypeError)
                      | Some m2 \<Rightarrow>
                         (case execute e (model m2) img of
                            Inl err \<Rightarrow>
                              ([CallExecute (model m0) img, CallExecute (model m1) img,
                                CallExecute (model m2) img], Inl err)
                          | Inr r2 \<Rightarrow>
                              ([CallExecute (model m0) img, CallExecute (model m1) img,
                                CallExecute (model m2) img],
                               Inr [classInfo_of e r0, classInfo_of e r1, classInfo_of e r2])))))))"
  by (simp add: classifier_def classInfo_of_def
        classifier_loop.simps [of e img 0] classifier_loop.simps [of e img "Suc 0"]
        classifier_loop.simps [of e img "Suc (Suc 0)"] classifier_loop.simps [of e img "Suc (Suc (Suc 0))"]
      split: option.splits sum.splits)

lemma js_index_Cons3:
  "js_index (m0 # m1 # m2 # ms) 0 = Some m0"
  "js_index (m0 # m1 # m2 # ms) 1 = Some m1"
  "js_index (m0 # m1 # m2 # ms) 2 = Some m2"
  by (simp_all add: js_index_def)

lemma js_index_3D:
  assumes "js_index xs 0 = Some m0" "js_index xs 1 = Some m1" "js_index xs 2 = Some m2"
  shows "\<exists>ms. xs = m0 # m1 # m2 # ms"
proof -
  from assms have len: "3 \<le> length xs" and e0: "xs ! 0 = m0" and e1: "xs ! 1 = m1" and e2: "xs ! 2 = m2"
    by (auto simp: js_index_def split: if_splits)
  from len obtain a b c ms where "xs = a # b # c # ms"
    by (metis Suc_le_length_iff numeral_3_eq_3)
  with e0 e1 e2 show ?thesis by simp
qed

lemma classifier_success:
  assumes ms: "ImageClassificationModels e = m0 # m1 # m2 # ms"
    and r0: "execute e (model m0) img = Inr r0"
    and r1: "execute e (model m1) img = Inr r1"
    and r2: "execute e (model m2) img = Inr r2"
  shows "classifier e img =
    ([CallExecute (model m0) img, CallExecute (model m1) img, CallExecute (model m2) img],
     Inr [classInfo_of e r0, classInfo_of e r1, classInfo_of e r2])"
  by (simp add: classifier_unroll ms r0 r1 r2 js_index_Cons3)

lemma classifier_Inr_D:
  assumes "snd (classifier e img) = Inr cs"
  shows "\<exists>m0 m1 m2 ms r0 r1 r2. ImageClassificationModels e = m0 # m1 # m2 # ms
    \<and> execute e (model m0) img = Inr r0 \<and> execute e (model m1) img = Inr r1
    \<and> execute e (model m2) img = Inr r2
    \<and> cs = [classInfo_of e r0, classInfo_of e r1, classInfo_of e r2]"
proof -
  from assms obtain m0 m1 m2 r0 r1 r2 where
    i0: "js_index (ImageClassificationModels e) 0 = Some m0" and
    i1: "js_index (ImageClassificationModels e) 1 = Some m1" and
    i2: "js_index (ImageClassificationModels e) 2 = Some m2" and
    x: "execute e (model m0) img = Inr r0" "execute e (model m1) img = Inr r1"
       "execute e (model m2) img = Inr r2" and
    cs: "cs = [classInfo_of e r0, classInfo_of e r1, classInfo_of e r2]"
    by (auto simp: classifier_unroll split: option.splits sum.splits)
  from js_index_3D [OF i0 i1 i2] obtain ms where "ImageClassificationModels e = m0 # m1 # m2 # ms" ..
  with x cs show ?thesis by blast
qed

lemma classifier_no_release: "count_list (fst (classifier e img)) (Release x) = 0"
  by (simp add: classifier_unroll split: option.splits sum.splits)

lemma confidence_classInfo_of:
  "confidence (classInfo_of e r) = js_over (math_round (js_times (result_confidence r) 1000)) 10"
  by (simp add: classInfo_of_def)

lemma handleCapture_segments:
  "handleCapture e s img =
     (case handleCapture_toFile e s img of
        (s1, tr1, Inl err) \<Rightarrow> (s1, tr1, Inl err)
      | (s1, tr1, Inr u) \<Rightarrow>
          (case handleCapture_classifier e s1 img of
             (s2, tr2, out) \<Rightarrow> (s2, tr1 @ tr2, out)))"
  by (simp add: handleCapture_def handleCapture_toFile_def handleCapture_classifier_def
      split: sum.splits prod.splits)

lemma handler_replay:
  "foldl setter s (effects (handleCapture e s img)) = fst (handleCapture e s img)"
  "foldl setter s (effects (handleFrame e s img)) = fst (handleFrame e s img)"
  "foldl setter s (snd (handlePressReturn s)) = fst (handlePressReturn s)"
  "foldl setter s (snd (setActiveModelInfo m s)) = fst (setActiveModelInfo m s)"
  by (simp_all add: handleCapture_def handleFrame_def handlePressReturn_def
      setActiveModelInfo_def effects_def classifier_unroll
      split: sum.splits prod.splits option.splits)

subsection \<open>Steps of the machine\<close>

lemma set_remove_nth: "set (remove_nth i xs) \<subseteq> set xs"
  by (auto simp: remove_nth_def dest: in_set_takeD in_set_dropD)

lemma step_exited: "exited a \<Longrightarrow> step e a ev = a"
  by (simp add: step_def)

lemma step_unwired: "\<not> wired a ev \<Longrightarrow> step e a ev = a"
  by (simp add: step_def)

lemma isCaptured_toFile_segment:
  "isCaptured (fst (handleCapture_toFile e s img)) = (isCaptured s \<or> isOK (toFile e img))"
  by (simp add: handleCapture_toFile_def isOK_def split: sum.splits)

lemma isCaptured_classifier_segment:
  "isCaptured (fst (handleCapture_classifier e s img)) = isCaptured s"
  by (simp add: handleCapture_classifier_def split: sum.splits prod.splits)

lemma isCaptured_resume:
  assumes "i < length (pending a)"
  shows "isCaptured (ui (resume e a i)) =
     (isCaptured (ui a) \<or> (\<exists>img. pending a ! i = AwaitToFile img \<and> isOK (toFile e img)))"
proof (cases "pending a ! i")
  case (AwaitToFile img)
  then show ?thesis
    by (simp add: resume_def handleCapture_toFile_def isOK_def split: sum.splits)
next
  case (AwaitClassifier img)
  then show ?thesis
    by (simp add: resume_def isCaptured_classifier_segment)
qed

lemma into_captured:
  assumes "\<not> isCaptured (ui a)" and "isCaptured (ui (step e a ev))"
  shows "\<exists>i img. ev = Resume i \<and> i < length (pending a) \<and> pending a ! i = AwaitToFile img"
proof -
  from assms have w: "wired a ev" "\<not> exited a"
    using step_unwired step_exited by metis+
  show ?thesis
  proof (cases ev)
    case (Resume i)
    with w have i: "i < length (pending a)" by simp
    from assms Resume w have "isCaptured (ui (resume e a i))" by (simp add: step_def)
    with i assms(1) Resume show ?thesis by (auto simp: isCaptured_resume)
  next
    case HardwareBack
    with assms w show ?thesis by (simp add: step_def backAction_def)
  next
    case (PressAlertButton i)
    with assms w show ?thesis
      by (cases "onPress (the (dialog a) ! i)") (auto simp: step_def split: option.splits)
  qed (use assms w in \<open>simp_all add: step_def handleFrame_def setActiveModelInfo_def handleSubmit_def
        split: sum.splits\<close>)
qed

lemma out_of_captured:
  assumes "isCaptured (ui a)" and "\<not> isCaptured (ui (step e a ev))"
  shows "ev = PressReturn \<or> ev = HardwareBack"
proof -
  from assms have w: "wired a ev" "\<not> exited a"
    using step_unwired step_exited by metis+
  show ?thesis
  proof (cases ev)
    case (Resume i)
    with w have i: "i < length (pending a)" by simp
    from assms Resume w have "\<not> isCaptured (ui (resume e a i))" by (simp add: step_def)
    with i assms(1) show ?thesis by (simp add: isCaptured_resume)
  next
    case (PressAlertButton i)
    with assms w show ?thesis
      by (cases "onPress (the (dialog a) ! i)") (auto simp: step_def split: option.splits)
  qed (use assms w in \<open>simp_all add: step_def handleFrame_def setActiveModelInfo_def handleSubmit_def
        split: sum.splits\<close>)
qed

lemma first_capture:
  assumes "\<not> isCaptured (ui a)" and "pending a = []"
    and "isCaptured (ui (step e a ev)) \<or> pending (step e a ev) \<noteq> []"
  shows "\<exists>img. ev = Capture img"
proof -
  from assms have "step e a ev \<noteq> a" by auto
  then have w: "wired a ev" "\<not> exited a"
    using step_unwired step_exited by metis+
  show ?thesis
  proof (cases ev)
    case (Resume i)
    with w assms(2) show ?thesis by simp
  next
    case HardwareBack
    with assms w show ?thesis by (simp add: step_def backAction_def)
  next
    case (PressAlertButton i)
    with assms w show ?thesis
      by (cases "onPress (the (dialog a) ! i)") (auto simp: step_def split: option.splits)
  qed (use assms w in \<open>simp_all add: step_def handleFrame_def setActiveModelInfo_def handleSubmit_def
        split: sum.splits\<close>)
qed

lemma run_snoc: "run e a (evs @ [ev]) = step e (run e a evs) ev"
  by (simp add: run_def)

text \<open>
  A capture whose two resumptions follow at once, with nothing in between, is
  \<open>handleCapture\<close> run from its call to its end.
\<close>

lemma remove_nth_last: "remove_nth (length xs) (xs @ [t]) = xs"
  by (simp add: remove_nth_def)

lemma capture_run_to_end:
  assumes "\<not> exited a" and "\<not> isCaptured (ui a)"
  shows "ui (run e a [Capture img, Resume (length (pending a)), Resume (length (pending a))]) =
     fst (handleCapture e (ui a) img)"
proof (cases "toFile e img")
  case (Inl err)
  with assms show ?thesis
    by (simp add: run_def step_def resume_def handleCapture_toFile_def handleCapture_def
        remove_nth_last)
next
  case (Inr p)
  with assms show ?thesis
    by (simp add: run_def step_def resume_def handleCapture_toFile_def handleCapture_def
        handleCapture_classifier_def split: sum.splits prod.splits)
qed

lemma captured_needs_capture:
  "isCaptured (ui (run e (init_app e) evs)) \<or> pending (run e (init_app e) evs) \<noteq> [] \<Longrightarrow>
   \<exists>evs1 img evs2. evs = evs1 @ Capture img # evs2 \<and> \<not> isCaptured (ui (run e (init_app e) evs1))"
proof (induction evs rule: rev_induct)
  case Nil
  then show ?case by (simp add: run_def init_app_def init_def)
next
  case (snoc ev evs)
  let ?a = "run e (init_app e) evs"
  show ?case
  proof (cases "isCaptured (ui ?a) \<or> pending ?a \<noteq> []")
    case True
    with snoc.IH obtain evs1 img evs2 where
      "evs = evs1 @ Capture img # evs2" "\<not> isCaptured (ui (run e (init_app e) evs1))"
      by blast
    then have "evs @ [ev] = evs1 @ Capture img # (evs2 @ [ev])" by simp
    with \<open>\<not> isCaptured (ui (run e (init_app e) evs1))\<close> show ?thesis by blast
  next
    case False
    then have l: "\<not> isCaptured (ui ?a)" and p: "pending ?a = []" by simp_all
    from snoc.prems have "isCaptured (ui (step e ?a ev)) \<or> pending (step e ?a ev) \<noteq> []"
      by (simp add: run_snoc)
    from first_capture [OF l p this] obtain img where "ev = Capture img" ..
    then have "evs @ [ev] = evs @ Capture img # []" by simp
    with l show ?thesis by blast
  qed
qed

lemma live_is_clean_handlers:
  assumes "live_is_clean s"
  shows "live_is_clean (fst (handleFrame e s img))"
    and "live_is_clean (fst (handleCapture e s img))"
    and "live_is_clean (fst (handlePressReturn s))"
    and "live_is_clean (fst (backAction s))"
    and "live_is_clean (fst (setActiveModelInfo m s))"
    and "live_is_clean (fst (handleSubmit s))"
  using assms
  by (auto simp: live_is_clean_def handleFrame_def handleCapture_def handlePressReturn_def
      backAction_def setActiveModelInfo_def handleSubmit_def split: sum.splits prod.splits)

lemma live_is_clean_init: "live_is_clean (init e)"
  by (simp add: live_is_clean_def init_def)

lemma path_clean_step:
  assumes "isCaptured (ui a) \<or> currImage (ui a) = []"
  shows "isCaptured (ui (step e a ev)) \<or> currImage (ui (step e a ev)) = []"
proof (cases "wired a ev \<and> \<not> exited a")
  case False
  then have "step e a ev = a" by (auto simp: step_def)
  with assms show ?thesis by simp
next
  case True
  then have w: "wired a ev" "\<not> exited a" by simp_all
  show ?thesis
  proof (cases ev)
    case (Resume i)
    show ?thesis
    proof (cases "pending a ! i")
      case (AwaitToFile img)
      with Resume w assms show ?thesis
        by (auto simp: step_def resume_def handleCapture_toFile_def split: sum.splits)
    next
      case (AwaitClassifier img)
      with Resume w assms show ?thesis
        by (auto simp: step_def resume_def handleCapture_classifier_def split: sum.splits prod.splits)
    qed
  next
    case (PressAlertButton i)
    with assms w show ?thesis
      by (cases "onPress (the (dialog a) ! i)") (auto simp: step_def split: option.splits)
  qed (use assms w in \<open>auto simp: step_def handleFrame_def setActiveModelInfo_def handleSubmit_def
        handlePressReturn_def backAction_def split: sum.splits\<close>)
qed

lemma live_is_clean_step:
  assumes "live_is_clean (ui a)"
    and "\<And>i img. ev = Resume i \<Longrightarrow> pending a ! i \<noteq> AwaitClassifier img"
  shows "live_is_clean (ui (step e a ev))"
proof (cases "wired a ev \<and> \<not> exited a")
  case False
  then have "step e a ev = a" by (auto simp: step_def)
  with assms show ?thesis by simp
next
  case True
  then have w: "wired a ev" "\<not> exited a" by simp_all
  show ?thesis
  proof (cases ev)
    case (Resume i)
    with assms(2) obtain img where "pending a ! i = AwaitToFile img"
      by (cases "pending a ! i") auto
    with Resume w assms(1) show ?thesis
      by (auto simp: step_def resume_def handleCapture_toFile_def live_is_clean_def split: sum.splits)
  next
    case (PressAlertButton i)
    with assms w show ?thesis
      by (cases "onPress (the (dialog a) ! i)") (auto simp: step_def split: option.splits)
  qed (use assms(1) w in \<open>auto simp: step_def handleFrame_def setActiveModelInfo_def handleSubmit_def
        handlePressReturn_def backAction_def live_is_clean_def split: sum.splits\<close>)
qed

subsection \<open>The sample environment, evaluated\<close>

lemma sample_models_env:
  "ImageClassificationModels sample_env =
     \<lparr> name = ''A'', model = ''a.ptl'' \<rparr> # \<lparr> name = ''B'', model = ''b.ptl'' \<rparr>
       # \<lparr> name = ''C'', model = ''c.ptl'' \<rparr> # []"
  by (simp add: sample_env_def sample_models_def)

lemma sample_exec:
  "execute sample_env ''a.ptl'' img = Inr (ModelResult 1 (Finite (7 / 8)) (ModelResultMetrics 12))"
  "execute sample_env ''b.ptl'' img = Inr (ModelResult 0 (Finite (1 / 2)) (ModelResultMetrics 30))"
  "execute sample_env ''c.ptl'' img =
     Inr (ModelResult 7 (Finite double_0_0045) (ModelResultMetrics 45))"
  by (simp_all add: sample_env_def sample_execute_def)

lemma sample_classifier:
  "classifier sample_env img =
     ([CallExecute ''a.ptl'' img, CallExecute ''b.ptl'' img, CallExecute ''c.ptl'' img],
      Inr sample_result)"
proof -
  have tbl: "MobileNetV3Classes sample_env = [''tench'', ''goldfish'', ''shark'']"
    by (simp add: sample_env_def)
  show ?thesis
    using classifier_success [OF sample_models_env, of img]
    by (simp add: sample_exec classInfo_of_def tbl js_index_def sample_confidences sample_result_def
        del: js_times.simps js_over.simps math_round.simps)
qed

lemma sample_toFile: "toFile sample_env img = Inr ''/tmp/photo.png''"
  by (simp add: sample_env_def)

lemma sample_handleCapture:
  "handleCapture sample_env s img =
     (s\<lparr>isCaptured := True, currImage := ''file:///tmp/photo.png'',
         classesInfo := sample_result\<rparr>,
      [CallToFile img, SetIsCaptured True, SetCurrImage ''file:///tmp/photo.png'',
       CallExecute ''a.ptl'' img, CallExecute ''b.ptl'' img, CallExecute ''c.ptl'' img,
       SetClassesInfo sample_result,
       Release img],
      Inr ())"
  by (simp add: handleCapture_def sample_toFile sample_classifier)

lemma sample_steps:
  "step sample_env (init_app sample_env) (Capture (Image 0)) = awaiting_file"
  "step sample_env awaiting_file (Resume 0) = classifying"
  "step sample_env classifying PressReturn = returned_early"
  "step sample_env returned_early (Resume 0) = late_result"
  by (simp_all add: step_def awaiting_file_def classifying_def returned_early_def late_result_def
      init_app_def init_def resume_def remove_nth_def handleCapture_toFile_def sample_toFile
      handlePressReturn_def handleCapture_classifier_def sample_classifier)

lemma sample_runs:
  "run sample_env (init_app sample_env) [] = init_app sample_env"
  "run sample_env (init_app sample_env) [Capture (Image 0)] = awaiting_file"
  "run sample_env (init_app sample_env) [Capture (Image 0), Resume 0] = classifying"
  "run sample_env (init_app sample_env) [Capture (Image 0), Resume 0, PressReturn] = returned_early"
  "run sample_env (init_app sample_env) [Capture (Image 0), Resume 0, PressReturn, Resume 0] =
     late_result"
  by (simp_all add: run_def sample_steps)

lemma sample_screens:
  "\<not> isCaptured (ui (init_app sample_env))"
  "\<not> isCaptured (ui awaiting_file)"
  "isCaptured (ui classifying)"
  "\<not> isCaptured (ui returned_early)"
  "\<not> isCaptured (ui late_result)"
  by (simp_all add: awaiting_file_def classifying_def returned_early_def late_result_def
      init_app_def init_def)

lemma sample_stale_rows:
  "render (ui (step sample_env (step sample_env late_result (Capture (Image 1))) (Resume 0))) =
   CapturedView True False (map (\<lambda>c. (className c, confidence c)) sample_result)"
  by (simp add: late_result_def step_def init_app_def init_def resume_def handleCapture_toFile_def
      sample_toFile render_def sample_result_def)

subsection \<open>Frames during the captured screen\<close>

text \<open>
  The guard of \<open>handleFrame\<close>, read by itself: a callback made in a render with \<open>isCaptured\<close>
  releases the frame and does nothing else.
\<close>

lemma handleFrame_guard:
  assumes "isCaptured s"
  shows "handleFrame e s img = (s, [Release img], Inr ())
    \<and> \<not> list_ex isCallProcessImage (effects (handleFrame e s img))"
  using assms by (simp add: handleFrame_def effects_def)

text \<open>
  No camera ever holds such a callback: the state of the last live render is a state of
  the live screen, so the callback the camera held last calls \<open>processImage\<close> for every frame
  it is handed, whatever the screen has become since. On the captured screen the machine
  delivers no frame and a frame event changes nothing.
\<close>

lemma last_live_render_live:
  "\<not> isCaptured r \<Longrightarrow> \<not> isCaptured (last_live_render e r a evs)"
  by (induction evs arbitrary: r a) simp_all

lemma late_frame_calls_hook: "list_ex isCallProcessImage (effects (late_frame e evs img))"
proof -
  have "\<not> isCaptured (last_live_render e (init e) (init_app e) evs)"
    by (rule last_live_render_live) (simp add: init_def)
  then show ?thesis
    by (simp add: late_frame_def handleFrame_def effects_def split: sum.splits)
qed

lemma frame_on_captured_screen:
  "isCaptured (ui a) \<Longrightarrow> step e a (Frame img) = a"
  by (simp add: step_def)


subsection \<open>The classifier\<close>

text \<open>
  C4, as stated, has each confidence equal to the raw confidence as a percentage rounded to
  one decimal place. The third model of the sample environment returns the double nearest
  to 0.0045, which is below 0.0045; its percentage is below 0.45 and rounds to 0.4. In
  doubles the product with 1000 is 4.5 exactly, \<open>Math.round\<close> gives 5 and the entry's
  confidence is 0.5, further than 0.05 from the raw percentage.
\<close>

theorem classifier_rounds_percentage_counterexample:
  "snd (classifier sample_env (Image 0)) = Inr sample_result
   \<and> execute sample_env ''c.ptl'' (Image 0) =
       Inr (ModelResult 7 (Finite double_0_0045) (ModelResultMetrics 45))
   \<and> 0 \<le> double_0_0045 \<and> double_0_0045 \<le> 1
   \<and> confidence (sample_result ! 2) = Finite (1 / 2)
   \<and> \<not> entry_within 0 sample_env (ModelResult 7 (Finite double_0_0045) (ModelResultMetrics 45))
         (sample_result ! 2)"
proof -
  have "tenths (1 / 2) = 5" by (simp add: tenths_def)
  then have "\<not> entry_within 0 sample_env (ModelResult 7 (Finite double_0_0045) (ModelResultMetrics 45))
         (sample_result ! 2)"
    by (simp add: entry_within_def sample_result_def double_0_0045_def)
  moreover have "0 \<le> double_0_0045 \<and> double_0_0045 \<le> 1"
    by (simp add: double_0_0045_def)
  moreover have "confidence (sample_result ! 2) = Finite (1 / 2)"
    by (simp add: sample_result_def)
  ultimately show ?thesis by (simp add: sample_classifier sample_exec)
qed

text \<open>
  C4, amended. When the model table has at least three entries and each of the three
  executions resolves with a confidence between 0 and 1, the classifier resolves to a list
  of three entries, the i-th built from the result of the i-th model of the table, the
  models being called in table order. Each confidence is \<open>Math.round(confidence * 1000) / 10\<close>
  computed in doubles: a finite number between 0 and 100 that is the double nearest to
  \<open>k / 10\<close> for an integer \<open>k\<close>, where \<open>k / 10\<close> is within \<open>0.05 + 2^-47\<close> of the raw confidence
  as a percentage.
\<close>

theorem classifier_three_rounded:
  assumes "ImageClassificationModels e = m0 # m1 # m2 # ms"
    and "execute e (model m0) img = Inr r0"
    and "execute e (model m1) img = Inr r1"
    and "execute e (model m2) img = Inr r2"
    and "result_confidence r0 = Finite x0 \<and> 0 \<le> x0 \<and> x0 \<le> 1"
    and "result_confidence r1 = Finite x1 \<and> 0 \<le> x1 \<and> x1 \<le> 1"
    and "result_confidence r2 = Finite x2 \<and> 0 \<le> x2 \<and> x2 \<le> 1"
  shows "\<exists>c0 c1 c2.
      classifier e img =
        ([CallExecute (model m0) img, CallExecute (model m1) img, CallExecute (model m2) img],
         Inr [c0, c1, c2])
      \<and> entry_within (1 / 2 ^ 47) e r0 c0
      \<and> entry_within (1 / 2 ^ 47) e r1 c1
      \<and> entry_within (1 / 2 ^ 47) e r2 c2
      \<and> confidence c0 = js_over (math_round (js_times (result_confidence r0) 1000)) 10
      \<and> confidence c1 = js_over (math_round (js_times (result_confidence r1) 1000)) 10
      \<and> confidence c2 = js_over (math_round (js_times (result_confidence r2) 1000)) 10"
proof -
  have "classifier e img =
      ([CallExecute (model m0) img, CallExecute (model m1) img, CallExecute (model m2) img],
       Inr [classInfo_of e r0, classInfo_of e r1, classInfo_of e r2])"
    using assms(1-4) by (rule classifier_success)
  moreover have "entry_within (1 / 2 ^ 47) e r0 (classInfo_of e r0)"
    "entry_within (1 / 2 ^ 47) e r1 (classInfo_of e r1)"
    "entry_within (1 / 2 ^ 47) e r2 (classInfo_of e r2)"
    using assms(5-7) by (blast intro: entry_within_classInfo_of)+
  ultimately show ?thesis using confidence_classInfo_of by blast
qed

theorem classifier_three_rounded_witness:
  "\<exists>c0 c1 c2.
      classifier sample_env (Image 0) =
        ([CallExecute ''a.ptl'' (Image 0), CallExecute ''b.ptl'' (Image 0), CallExecute ''c.ptl'' (Image 0)],
         Inr [c0, c1, c2])
      \<and> entry_within (1 / 2 ^ 47) sample_env (ModelResult 1 (Finite (7 / 8)) (ModelResultMetrics 12)) c0
      \<and> entry_within (1 / 2 ^ 47) sample_env (ModelResult 0 (Finite (1 / 2)) (ModelResultMetrics 30)) c1
      \<and> entry_within (1 / 2 ^ 47) sample_env
            (ModelResult 7 (Finite double_0_0045) (ModelResultMetrics 45)) c2
      \<and> confidence c0 = Finite (175 / 2) \<and> confidence c1 = Finite 50 \<and> confidence c2 = Finite (1 / 2)"
proof -
  have d: "0 \<le> double_0_0045 \<and> double_0_0045 \<le> 1" by (simp add: double_0_0045_def)
  from classifier_three_rounded [OF sample_models_env, of "Image 0"
      "ModelResult 1 (Finite (7 / 8)) (ModelResultMetrics 12)"
      "ModelResult 0 (Finite (1 / 2)) (ModelResultMetrics 30)"
      "ModelResult 7 (Finite double_0_0045) (ModelResultMetrics 45)"
      "7 / 8" "1 / 2" double_0_0045] d
  show ?thesis
    by (simp add: sample_exec sample_confidences
        del: js_times.simps js_over.simps math_round.simps)
qed

subsection \<open>Leaving the captured screen\<close>

text \<open>
  C6. In the captured state, the Return button and the hardware back button both run
  \<open>handlePressReturn\<close>: the result list becomes empty, the image path becomes the empty
  string and \<open>isCaptured\<close> becomes false; the selected model is untouched.
\<close>

theorem return_clears:
  assumes "isCaptured (ui a)" and "\<not> exited a"
  shows "fst (handlePressReturn (ui a)) = (ui a)\<lparr>classesInfo := [], currImage := [], isCaptured := False\<rparr>
    \<and> fst (backAction (ui a)) = (ui a)\<lparr>classesInfo := [], currImage := [], isCaptured := False\<rparr>
    \<and> ui (step e a PressReturn) = (ui a)\<lparr>classesInfo := [], currImage := [], isCaptured := False\<rparr>
    \<and> ui (step e a HardwareBack) = (ui a)\<lparr>classesInfo := [], currImage := [], isCaptured := False\<rparr>"
  using assms by (simp add: step_def handlePressReturn_def backAction_def)

theorem return_clears_witness:
  "isCaptured (ui shown_result) \<and> \<not> exited shown_result
   \<and> ui (step sample_env shown_result PressReturn) =
       \<lparr> activeModelInfo = Some \<lparr> name = ''A'', model = ''a.ptl'' \<rparr>, isCaptured = False,
         currImage = [], classesInfo = [] \<rparr>
   \<and> ui (step sample_env shown_result HardwareBack) =
       \<lparr> activeModelInfo = Some \<lparr> name = ''A'', model = ''a.ptl'' \<rparr>, isCaptured = False,
         currImage = [], classesInfo = [] \<rparr>"
proof -
  have h: "isCaptured (ui shown_result)" "\<not> exited shown_result"
    by (simp_all add: shown_result_def)
  from return_clears [OF h, of sample_env] h show ?thesis
    by (simp add: shown_result_def)
qed

subsection \<open>The back button on the live screen\<close>

text \<open>
  C8. On the live screen a hardware back press changes no state variable and opens a
  dialog with the buttons Cancel and YES. Cancel runs \<open>() => null\<close>: the dialog closes and
  the component state, the pending handlers and the process are as before. YES runs
  \<open>BackHandler.exitApp()\<close>: the process ends.
\<close>

theorem back_in_live_preview:
  assumes "\<not> isCaptured (ui a)" and "\<not> exited a"
  shows "backAction (ui a) =
           (ui a, [Alert ''Hold on!'' ''Are you sure you want to quit?'' quitButtons], True)
    \<and> map buttonText quitButtons = [''Cancel'', ''YES'']
    \<and> step e a HardwareBack = a\<lparr>dialog := Some quitButtons\<rparr>
    \<and> press (onPress (quitButtons ! 0)) = []
    \<and> step e (step e a HardwareBack) (PressAlertButton 0) = a\<lparr>dialog := None\<rparr>
    \<and> press (onPress (quitButtons ! 1)) = [BackHandlerExitApp]
    \<and> step e (step e a HardwareBack) (PressAlertButton 1) = a\<lparr>dialog := None, exited := True\<rparr>"
  using assms by (simp add: step_def backAction_def quitButtons_def)

theorem back_in_live_preview_witness:
  "\<not> isCaptured (ui (init_app sample_env)) \<and> \<not> exited (init_app sample_env)
   \<and> step sample_env (step sample_env (init_app sample_env) HardwareBack) (PressAlertButton 0)
       = init_app sample_env
   \<and> exited (step sample_env (step sample_env (init_app sample_env) HardwareBack) (PressAlertButton 1))"
proof -
  have h: "\<not> isCaptured (ui (init_app sample_env))" "\<not> exited (init_app sample_env)"
    by (simp_all add: init_app_def init_def)
  have d: "(init_app sample_env)\<lparr>dialog := None\<rparr> = init_app sample_env"
    by (simp add: init_app_def)
  have x: "exited ((init_app sample_env)\<lparr>dialog := None, exited := True\<rparr>)"
    by simp
  from back_in_live_preview [OF h, of sample_env] h d x show ?thesis
    by metis
qed

subsection \<open>The order of a capture\<close>

text \<open>
  C1, as stated, puts the storing of the classification list before the switch to the
  captured screen. In the sample environment no \<open>setClassesInfo\<close> comes before a
  \<open>setIsCaptured\<close> in the trace of \<open>handleCapture\<close>, and the converse holds: the switch
  is the second effect and the list is stored second to last.
\<close>

theorem capture_stores_list_first_counterexample:
  "\<not> occurs_before isSetClassesInfo isSetIsCaptured
       (effects (handleCapture sample_env (init sample_env) (Image 0)))
   \<and> occurs_before isSetIsCaptured isSetClassesInfo
       (effects (handleCapture sample_env (init sample_env) (Image 0)))"
  by (simp add: sample_handleCapture effects_def)

text \<open>
  C1, amended. When the file write and the three model executions resolve (the model
  table having at least three entries), \<open>handleCapture\<close> does, in this order: write the
  photo to a file; set \<open>isCaptured\<close> and store the path prefixed with \<open>file://\<close>; execute
  the first three models of the table in table order; store the list of the three entries,
  each confidence being \<open>Math.round(confidence * 1000) / 10\<close> in doubles; release the
  image. At the
  \<open>await\<close> on the classifier the screen is already the captured one, with the result list
  as it was.
\<close>

theorem handleCapture_order:
  assumes "toFile e img = Inr p"
    and "ImageClassificationModels e = m0 # m1 # m2 # ms"
    and "execute e (model m0) img = Inr r0"
    and "execute e (model m1) img = Inr r1"
    and "execute e (model m2) img = Inr r2"
  shows "handleCapture e s img =
      (s\<lparr>isCaptured := True, currImage := ''file://'' @ p,
          classesInfo := [classInfo_of e r0, classInfo_of e r1, classInfo_of e r2]\<rparr>,
       [CallToFile img, SetIsCaptured True, SetCurrImage (''file://'' @ p),
        CallExecute (model m0) img, CallExecute (model m1) img, CallExecute (model m2) img,
        SetClassesInfo [classInfo_of e r0, classInfo_of e r1, classInfo_of e r2],
        Release img],
       Inr ())
    \<and> map confidence [classInfo_of e r0, classInfo_of e r1, classInfo_of e r2] =
        [js_over (math_round (js_times (result_confidence r0) 1000)) 10,
         js_over (math_round (js_times (result_confidence r1) 1000)) 10,
         js_over (math_round (js_times (result_confidence r2) 1000)) 10]
    \<and> fst (handleCapture_toFile e s img) = s\<lparr>isCaptured := True, currImage := ''file://'' @ p\<rparr>"
  using classifier_success [OF assms(2-5)] assms(1)
  by (simp add: handleCapture_def handleCapture_toFile_def classInfo_of_def)

theorem handleCapture_order_witness:
  "handleCapture sample_env (init sample_env) (Image 0) =
      ((init sample_env)\<lparr>isCaptured := True, currImage := ''file:///tmp/photo.png'',
          classesInfo := sample_result\<rparr>,
       [CallToFile (Image 0), SetIsCaptured True, SetCurrImage ''file:///tmp/photo.png'',
        CallExecute ''a.ptl'' (Image 0), CallExecute ''b.ptl'' (Image 0), CallExecute ''c.ptl'' (Image 0),
        SetClassesInfo sample_result,
        Release (Image 0)],
       Inr ())"
proof -
  have tbl: "MobileNetV3Classes sample_env = [''tench'', ''goldfish'', ''shark'']"
    by (simp add: sample_env_def)
  show ?thesis
    using handleCapture_order [OF sample_toFile sample_models_env, of "Image 0" _ _ _ "init sample_env"]
    by (simp add: sample_exec classInfo_of_def tbl js_index_def sample_confidences sample_result_def
        del: js_times.simps js_over.simps math_round.simps)
qed

subsection \<open>Releasing frames\<close>

text \<open>
  C2, as stated, has the frame released once whether or not the inference resolves. With a
  \<open>processImage\<close> that rejects, \<open>handleFrame\<close> on the live screen ends at the \<open>await\<close> and
  never releases the frame.
\<close>

theorem release_always_counterexample:
  "\<not> isCaptured (init failing_env)
   \<and> count_list (effects (handleFrame failing_env (init failing_env) (Image 0))) (Release (Image 0)) = 0"
  by (simp add: handleFrame_def effects_def init_def failing_env_def)

text \<open>
  C2, amended. \<open>handleFrame\<close> and \<open>handleCapture\<close> release the image they were handed exactly
  once when they run to their end, and not at all when an awaited call rejects.
  \<open>handleFrame\<close> runs to its end when the screen is the captured one (the frame is skipped)
  or \<open>processImage\<close> resolves; \<open>handleCapture\<close> does when the file write and the
  classifier resolve.
\<close>

theorem release_once_when_resolved:
  "count_list (effects (handleFrame e s img)) (Release img) =
      (if isOK (outcome (handleFrame e s img)) then 1 else 0)
   \<and> isOK (outcome (handleFrame e s img)) =
      (isCaptured s \<or> isOK (processImage e (activeModelInfo s) img))
   \<and> count_list (effects (handleCapture e s img)) (Release img) =
      (if isOK (outcome (handleCapture e s img)) then 1 else 0)
   \<and> isOK (outcome (handleCapture e s img)) =
      (isOK (toFile e img) \<and> isOK (snd (classifier e img)))"
proof -
  have f: "count_list (effects (handleFrame e s img)) (Release img) =
      (if isOK (outcome (handleFrame e s img)) then 1 else 0)
   \<and> isOK (outcome (handleFrame e s img)) =
      (isCaptured s \<or> isOK (processImage e (activeModelInfo s) img))"
    by (simp add: handleFrame_def effects_def outcome_def isOK_def split: sum.splits)
  have c: "count_list (effects (handleCapture e s img)) (Release img) =
      (if isOK (outcome (handleCapture e s img)) then 1 else 0)
   \<and> isOK (outcome (handleCapture e s img)) =
      (isOK (toFile e img) \<and> isOK (snd (classifier e img)))"
    using classifier_no_release [of e img img]
    by (auto simp: handleCapture_def effects_def outcome_def isOK_def split: sum.splits prod.splits)
  from f c show ?thesis by blast
qed

theorem release_once_when_resolved_witness:
  "count_list (effects (handleFrame sample_env (init sample_env) (Image 0))) (Release (Image 0)) = 1
   \<and> count_list (effects (handleFrame failing_env captured_state (Image 0))) (Release (Image 0)) = 1
   \<and> count_list (effects (handleCapture sample_env (init sample_env) (Image 0))) (Release (Image 0)) = 1"
proof -
  have a: "isOK (processImage sample_env (activeModelInfo (init sample_env)) (Image 0))"
    by (simp add: sample_env_def isOK_def)
  have b: "isCaptured captured_state" by (simp add: captured_state_def)
  have c: "isOK (toFile sample_env (Image 0))" "isOK (snd (classifier sample_env (Image 0)))"
    by (simp_all add: sample_toFile sample_classifier isOK_def)
  from release_once_when_resolved [of sample_env "init sample_env" "Image 0"]
    release_once_when_resolved [of failing_env captured_state "Image 0"] a b c
  show ?thesis by simp
qed

subsection \<open>The selected model\<close>

text \<open>
  C5. \<open>classifier\<close> takes the image only; it reads the model table, never \<open>activeModelInfo\<close>.
  So a capture run from a state with another selection has the same effects, the same
  outcome and the same resulting state (the selection apart), in particular the same
  result list. Selecting a model sets \<open>activeModelInfo\<close> and nothing else: the screen state,
  the result list, the image path and the pending handlers are as before. The selection
  is what \<open>handleFrame\<close> hands to the live inference hook.
\<close>

theorem selection_only_affects_hook:
  "effects (handleCapture e (s\<lparr>activeModelInfo := sel\<rparr>) img) = effects (handleCapture e s img)
   \<and> outcome (handleCapture e (s\<lparr>activeModelInfo := sel\<rparr>) img) = outcome (handleCapture e s img)
   \<and> fst (handleCapture e (s\<lparr>activeModelInfo := sel\<rparr>) img) =
       (fst (handleCapture e s img))\<lparr>activeModelInfo := sel\<rparr>
   \<and> fst (setActiveModelInfo m s) = s\<lparr>activeModelInfo := Some m\<rparr>
   \<and> isCaptured (ui (step e a (SelectModel m))) = isCaptured (ui a)
   \<and> classesInfo (ui (step e a (SelectModel m))) = classesInfo (ui a)
   \<and> currImage (ui (step e a (SelectModel m))) = currImage (ui a)
   \<and> pending (step e a (SelectModel m)) = pending a
   \<and> effects (handleFrame e (s\<lparr>activeModelInfo := sel\<rparr>) img) =
       (if isCaptured s then [Release img]
        else CallProcessImage sel img # (if isOK (processImage e sel img) then [Release img] else []))"
proof -
  have cap: "handleCapture e (s\<lparr>activeModelInfo := sel\<rparr>) img =
      ((fst (handleCapture e s img))\<lparr>activeModelInfo := sel\<rparr>,
       effects (handleCapture e s img), outcome (handleCapture e s img))"
    by (simp add: handleCapture_def effects_def outcome_def split: sum.splits prod.splits)
  have sel: "fst (setActiveModelInfo m s) = s\<lparr>activeModelInfo := Some m\<rparr>"
    by (simp add: setActiveModelInfo_def)
  have st: "isCaptured (ui (step e a (SelectModel m))) = isCaptured (ui a)
    \<and> classesInfo (ui (step e a (SelectModel m))) = classesInfo (ui a)
    \<and> currImage (ui (step e a (SelectModel m))) = currImage (ui a)
    \<and> pending (step e a (SelectModel m)) = pending a"
    by (simp add: step_def setActiveModelInfo_def)
  have fr: "effects (handleFrame e (s\<lparr>activeModelInfo := sel\<rparr>) img) =
       (if isCaptured s then [Release img]
        else CallProcessImage sel img # (if isOK (processImage e sel img) then [Release img] else []))"
    by (simp add: handleFrame_def effects_def isOK_def split: sum.splits)
  from cap sel st fr show ?thesis by (simp add: effects_def outcome_def)
qed

theorem selection_only_affects_hook_witness:
  "classesInfo (fst (handleCapture sample_env
       ((init sample_env)\<lparr>activeModelInfo := Some \<lparr> name = ''B'', model = ''b.ptl'' \<rparr>\<rparr>) (Image 0))) =
   classesInfo (fst (handleCapture sample_env (init sample_env) (Image 0)))
   \<and> effects (handleFrame sample_env
       ((init sample_env)\<lparr>activeModelInfo := Some \<lparr> name = ''B'', model = ''b.ptl'' \<rparr>\<rparr>) (Image 0)) =
      [CallProcessImage (Some \<lparr> name = ''B'', model = ''b.ptl'' \<rparr>) (Image 0), Release (Image 0)]"
proof -
  have a: "\<not> isCaptured (init sample_env)" by (simp add: init_def)
  have b: "isOK (processImage sample_env m (Image 0))" for m
    by (simp add: sample_env_def isOK_def)
  from selection_only_affects_hook
         [where e = sample_env and s = "init sample_env" and img = "Image 0"
            and sel = "Some \<lparr> name = ''B'', model = ''b.ptl'' \<rparr>"]
       a b
  show ?thesis by simp
qed

subsection \<open>The label lookup\<close>

text \<open>
  C10. Each entry's \<open>className\<close> is \<open>MobileNetV3Classes[maxIdx]\<close> for the index the model
  returned, with no check of the index: the table's entry when the index is within the
  table, and \<open>undefined\<close> (here \<open>None\<close>) otherwise, the classifier still resolving. In the
  sample environment the third model returns index 7 for a table of three labels.
\<close>

theorem label_lookup_unguarded:
  assumes "snd (classifier e img) = Inr cs" and "i < 3"
  shows "(\<exists>m r. js_index (ImageClassificationModels e) (int i) = Some m
            \<and> execute e (model m) img = Inr r
            \<and> className (cs ! i) =
                (if 0 \<le> result_maxIdx r \<and> result_maxIdx r < int (length (MobileNetV3Classes e))
                 then Some (MobileNetV3Classes e ! nat (result_maxIdx r)) else None))
    \<and> (\<exists>e' img' cs'. snd (classifier e' img') = Inr cs' \<and> className (cs' ! 2) = None)"
proof -
  from classifier_Inr_D [OF assms(1)] obtain m0 m1 m2 ms r0 r1 r2 where
    ms: "ImageClassificationModels e = m0 # m1 # m2 # ms" and
    x: "execute e (model m0) img = Inr r0" "execute e (model m1) img = Inr r1"
       "execute e (model m2) img = Inr r2" and
    cs: "cs = [classInfo_of e r0, classInfo_of e r1, classInfo_of e r2]"
    by blast
  from assms(2) consider "i = 0" | "i = 1" | "i = 2" by linarith
  then have "\<exists>m r. js_index (ImageClassificationModels e) (int i) = Some m
            \<and> execute e (model m) img = Inr r
            \<and> className (cs ! i) = js_index (MobileNetV3Classes e) (result_maxIdx r)"
  proof cases
    case 1
    with ms x cs show ?thesis by (simp add: js_index_Cons3 classInfo_of_def)
  next
    case 2
    with ms x cs show ?thesis by (simp add: js_index_Cons3 classInfo_of_def)
  next
    case 3
    with ms x cs show ?thesis by (simp add: js_index_Cons3 classInfo_of_def)
  qed
  then have first: "\<exists>m r. js_index (ImageClassificationModels e) (int i) = Some m
            \<and> execute e (model m) img = Inr r
            \<and> className (cs ! i) =
                (if 0 \<le> result_maxIdx r \<and> result_maxIdx r < int (length (MobileNetV3Classes e))
                 then Some (MobileNetV3Classes e ! nat (result_maxIdx r)) else None)"
    by (simp add: js_index_def)
  have "snd (classifier sample_env (Image 0)) = Inr sample_result"
    by (simp add: sample_classifier)
  moreover have "className (sample_result ! 2) = None"
    by (simp add: sample_result_def)
  ultimately have second: "\<exists>e' img' cs'. snd (classifier e' img') = Inr cs' \<and> className (cs' ! 2) = None"
    by blast
  from first second show ?thesis by blast
qed

theorem label_lookup_unguarded_witness:
  "snd (classifier sample_env (Image 0)) = Inr sample_result
   \<and> className (sample_result ! 0) = Some ''goldfish''
   \<and> className (sample_result ! 2) = None
   \<and> (\<exists>m r. js_index (ImageClassificationModels sample_env) (int 2) = Some m
            \<and> execute sample_env (model m) (Image 0) = Inr r
            \<and> className (sample_result ! 2) =
                (if 0 \<le> result_maxIdx r \<and> result_maxIdx r < int (length (MobileNetV3Classes sample_env))
                 then Some (MobileNetV3Classes sample_env ! nat (result_maxIdx r)) else None))"
proof -
  have c: "snd (classifier sample_env (Image 0)) = Inr sample_result"
    by (simp add: sample_classifier)
  have n: "className (sample_result ! 0) = Some ''goldfish''" "className (sample_result ! 2) = None"
    by (simp_all add: sample_result_def)
  have i: "(2::nat) < 3" by simp
  from label_lookup_unguarded [OF c i] c n show ?thesis by blast
qed

subsection \<open>The two screens\<close>

text \<open>
  C7. The component starts on the live screen. The only step that leads from the live
  screen to the captured one is the resumption of a capture handler after its file
  write (where \<open>handleCapture\<close> calls \<open>setIsCaptured(true)\<close>); the only steps that lead from
  the captured screen to the live one are the Return button and the hardware back
  button. A run that ends on the captured screen contains a capture action that was taken
  on the live screen.
\<close>

theorem screen_transitions:
  "\<not> isCaptured (ui (init_app e))
   \<and> (\<not> isCaptured (ui a) \<and> isCaptured (ui (step e a ev)) \<longrightarrow>
        (\<exists>i img. ev = Resume i \<and> i < length (pending a) \<and> pending a ! i = AwaitToFile img))
   \<and> (isCaptured (ui a) \<and> \<not> isCaptured (ui (step e a ev)) \<longrightarrow>
        ev = PressReturn \<or> ev = HardwareBack)
   \<and> (isCaptured (ui (run e (init_app e) evs)) \<longrightarrow>
        (\<exists>evs1 img evs2. evs = evs1 @ Capture img # evs2
           \<and> \<not> isCaptured (ui (run e (init_app e) evs1))))"
proof -
  have "\<not> isCaptured (ui (init_app e))" by (simp add: init_app_def init_def)
  then show ?thesis
    using into_captured [of a e ev] out_of_captured [of a e ev] captured_needs_capture [of e evs]
    by blast
qed

theorem screen_transitions_witness:
  "\<not> isCaptured (ui awaiting_file) \<and> isCaptured (ui (step sample_env awaiting_file (Resume 0)))
   \<and> (\<exists>i img. Resume 0 = Resume i \<and> i < length (pending awaiting_file)
         \<and> pending awaiting_file ! i = AwaitToFile img)
   \<and> isCaptured (ui (run sample_env (init_app sample_env) [Capture (Image 0), Resume 0]))
   \<and> (\<exists>evs1 img evs2. [Capture (Image 0), Resume 0] = evs1 @ Capture img # evs2
         \<and> \<not> isCaptured (ui (run sample_env (init_app sample_env) evs1)))"
proof -
  have h: "\<not> isCaptured (ui awaiting_file)" "isCaptured (ui (step sample_env awaiting_file (Resume 0)))"
    "isCaptured (ui (run sample_env (init_app sample_env) [Capture (Image 0), Resume 0]))"
    by (simp_all add: sample_steps sample_runs sample_screens)
  from screen_transitions [of sample_env awaiting_file "Resume 0" "[Capture (Image 0), Resume 0]"] h
  show ?thesis by blast
qed

subsection \<open>Results on the live screen\<close>

text \<open>
  C9 says that on the live screen the result list and the image path are empty. Every
  handler run from its call to its end keeps this (\<open>live_is_clean_handlers\<close>), the part about
  the image path survives every step of the machine (\<open>path_clean_step\<close>), and so does the
  whole of it on every step other than the resumption of a capture handler after the
  classifier (\<open>live_is_clean_step\<close>). That resumption stores the list whatever the screen
  is: when Return was pressed while the classifier was awaited, the list is stored on the
  live screen, and the next capture shows it in place of the activity indicator
  (\<open>sample_stale_rows\<close>).
\<close>

theorem late_result_on_live_screen:
  "\<not> isCaptured
       (ui (run sample_env (init_app sample_env) [Capture (Image 0), Resume 0, PressReturn, Resume 0]))
   \<and> classesInfo
       (ui (run sample_env (init_app sample_env) [Capture (Image 0), Resume 0, PressReturn, Resume 0]))
      = sample_result
   \<and> \<not> live_is_clean
       (ui (run sample_env (init_app sample_env) [Capture (Image 0), Resume 0, PressReturn, Resume 0]))"
proof -
  have r: "run sample_env (init_app sample_env) [Capture (Image 0), Resume 0, PressReturn, Resume 0]
      = late_result"
    by (simp add: sample_runs)
  have l: "\<not> isCaptured (ui late_result)" by (simp add: sample_screens)
  have c: "classesInfo (ui late_result) = sample_result" by (simp add: late_result_def)
  have n: "sample_result \<noteq> []" by (simp add: sample_result_def)
  from l c n have "\<not> live_is_clean (ui late_result)" by (simp add: live_is_clean_def)
  with r l c show ?thesis by simp
qed

end
